theory Spec2Isabelle
  imports Main "HOL-Library.Finite_Map"
begin

section \<open>The query builder of go-graphql-client (builder.go)\<close>

text \<open>
  The source file holds two copies of the same builder: \<^verbatim>\<open>QueryBuilder\<close> (methods
  \<^verbatim>\<open>Query\<close>, \<^verbatim>\<open>Variable\<close>, \<^verbatim>\<open>Variables\<close>, \<^verbatim>\<open>Remove\<close>, \<^verbatim>\<open>RemoveQuery\<close>,
  \<^verbatim>\<open>RemoveVariable\<close>, \<^verbatim>\<open>Build\<close>) and \<^verbatim>\<open>Builder\<close>, which adds a \<^verbatim>\<open>context\<close> field
  that every method copies and names the first and fourth method \<^verbatim>\<open>Bind\<close> and
  \<^verbatim>\<open>Unbind\<close>; the bodies are the same line by line. The embedding follows
  \<^verbatim>\<open>QueryBuilder\<close>.

  Go strings are byte sequences: \<^typ>\<open>string\<close>. The \<^verbatim>\<open>interface{}\<close> values that the
  builder only stores and hands back are type variables: \<open>'b\<close> for a binding, \<open>'v\<close> for
  the value of a variable.
\<close>

subsection \<open>regexVariableName and findAllVariableNames\<close>

text \<open>
  \<^verbatim>\<open>regexVariableName = regexp.MustCompile(`\$([_A-Za-z][_0-9A-Za-z]*)`)\<close>.
  The two character classes of the pattern, as ranges of byte values.
\<close>

definition isNameStart :: "char \<Rightarrow> bool" where
  "isNameStart c =
     (let n = (of_char c :: nat)
      in n = 95 \<or> (65 \<le> n \<and> n \<le> 90) \<or> (97 \<le> n \<and> n \<le> 122))"

definition isNameChar :: "char \<Rightarrow> bool" where
  "isNameChar c =
     (let n = (of_char c :: nat)
      in n = 95 \<or> (48 \<le> n \<and> n \<le> 57) \<or> (65 \<le> n \<and> n \<le> 90) \<or> (97 \<le> n \<and> n \<le> 122))"

text \<open>
  One match of the pattern anchored at the head of the input: a dollar sign, one
  character of the first class, then as many characters of the second class as there
  are (the star is greedy and nothing follows it, so it never gives a character back).
  The result is the text of capture group 1 and the input after the match.
\<close>

fun matchVariableName :: "string \<Rightarrow> (string \<times> string) option" where
  "matchVariableName (d # c # rest) =
     (if d = CHR ''$'' \<and> isNameStart c
      then Some (c # takeWhile isNameChar rest, dropWhile isNameChar rest)
      else None)"
| "matchVariableName _ = None"

text \<open>
  \<^verbatim>\<open>regexVariableName.FindAllStringSubmatch(query, -1)\<close>: all successive matches, each
  the leftmost one in what is left of the input, the search resuming where the
  previous match ended. A match is the list of the whole matched text and the text of
  group 1.
\<close>

function FindAllStringSubmatch :: "string \<Rightarrow> string list list" where
  "FindAllStringSubmatch [] = []"
| "FindAllStringSubmatch (c # cs) =
     (case matchVariableName (c # cs) of
        Some (name, rest) \<Rightarrow> [CHR ''$'' # name, name] # FindAllStringSubmatch rest
      | None \<Rightarrow> FindAllStringSubmatch cs)"
  by pat_completeness auto
termination
proof (relation "measure length")
  show "wf (measure length)" by simp
next
  fix c cs x2 name rest
  assume "matchVariableName (c # cs) = Some x2" and "(name, rest) = x2"
  then have m: "matchVariableName (c # cs) = Some (name, rest)" by simp
  have "length rest < length (c # cs)"
  proof (cases cs)
    case Nil
    with m show ?thesis by simp
  next
    case (Cons c' r)
    have "length (dropWhile isNameChar r) \<le> length r"
      by (rule length_dropWhile_le)
    with m Cons show ?thesis
      by (auto split: if_splits)
  qed
  then show "(rest, c # cs) \<in> measure length" by simp
qed simp

fun collectNames :: "string list list \<Rightarrow> string list \<Rightarrow> string list" where
  "collectNames [] results = results"
| "collectNames (names # ms) results = collectNames ms (results @ [names ! 1])"

definition findAllVariableNames :: "string \<Rightarrow> string list" where
  "findAllVariableNames qtext = collectNames (FindAllStringSubmatch qtext) []"

subsection \<open>Data\<close>

record 'b queryBuilderItem =
  query :: string
  binding :: 'b
  requiredVars :: "string list"

text \<open>
  A Go map is a reference: two builders that hold the same map see each other's writes.
  The store is the list of the maps allocated so far, an address is an index into it,
  and \<^verbatim>\<open>nil\<close> is \<open>None\<close>. The content of a map is a finite map; the order in which
  \<^verbatim>\<open>range\<close> walks a map is not fixed by Go, and no loop of the builder depends on it.

  A slice is modelled by the list of its elements: the builder only ever appends to
  slices and reads them, and \<^verbatim>\<open>append\<close> never changes the elements that the slice it
  is given can see. What \<^verbatim>\<open>append\<close> does to spare capacity that two slices share is
  decided by the growth policy of the Go runtime and is not part of the model.
\<close>

type_synonym addr = nat

type_synonym 'v gomap = "(string, 'v) fmap"

type_synonym 'v heap = "'v gomap list"

record 'b QueryBuilder =
  queries :: "'b queryBuilderItem list"
  variables :: "addr option"

datatype error =
  errBuildQueryRequired
| MismatchedVariables "string list" "string fset"

text \<open>Reading a map through a reference; a nil map reads as the empty map.\<close>

definition deref :: "'v heap \<Rightarrow> addr option \<Rightarrow> 'v gomap" where
  "deref h r = (case r of None \<Rightarrow> fmempty | Some a \<Rightarrow> h ! a)"

text \<open>\<^verbatim>\<open>make(map[string]interface{})\<close>: a fresh empty map at the next address.\<close>

definition make :: "'v heap \<Rightarrow> 'v heap \<times> addr" where
  "make h = (h @ [fmempty], length h)"

text \<open>\<^verbatim>\<open>len(m)\<close> of a map.\<close>

definition len :: "'v gomap \<Rightarrow> nat" where
  "len m = fcard (fmdom m)"

text \<open>The fragment list and the variable mapping that a builder shows in a store.\<close>

definition fragmentsOf :: "'b QueryBuilder \<Rightarrow> (string \<times> 'b) list" where
  "fragmentsOf b = map (\<lambda>q. (query q, binding q)) (queries b)"

definition variablesOf :: "'v heap \<Rightarrow> 'b QueryBuilder \<Rightarrow> 'v gomap" where
  "variablesOf h b = deref h (variables b)"

subsection \<open>Helpers\<close>

definition setMapValue :: "'v heap \<Rightarrow> addr option \<Rightarrow> string \<Rightarrow> 'v \<Rightarrow> 'v heap \<times> addr option" where
  "setMapValue h src key val =
     (let (h1, a) = (case src of None \<Rightarrow> make h | Some a \<Rightarrow> (h, a))
      in (h1[a := fmupd key val (h1 ! a)], Some a))"

text \<open>
  \<^verbatim>\<open>mergeMap\<close> writes every entry of \<^verbatim>\<open>src\<close>, then every entry of \<^verbatim>\<open>dest\<close>, into a
  fresh map: the entries of \<^verbatim>\<open>dest\<close> win.
\<close>

definition mergeMap :: "'v heap \<Rightarrow> addr option \<Rightarrow> addr option \<Rightarrow> 'v heap \<times> addr option" where
  "mergeMap h src dest =
     (h @ [fmempty ++\<^sub>f deref h src ++\<^sub>f deref h dest], Some (length h))"

fun sliceStringContains :: "string list \<Rightarrow> string \<Rightarrow> bool" where
  "sliceStringContains [] val = False"
| "sliceStringContains (s # rest) val = (if s = val then True else sliceStringContains rest val)"

subsection \<open>The builder's methods\<close>

definition NewQueryBuilder :: "'v heap \<Rightarrow> 'v heap \<times> 'b QueryBuilder" where
  "NewQueryBuilder h =
     (let (h1, a) = make h in (h1, \<lparr>queries = [], variables = Some a\<rparr>))"

definition Query :: "'b QueryBuilder \<Rightarrow> string \<Rightarrow> 'b \<Rightarrow> 'b QueryBuilder" where
  "Query b qtext bnd =
     \<lparr>queries = queries b @ [\<lparr>query = qtext, binding = bnd, requiredVars = findAllVariableNames qtext\<rparr>],
      variables = variables b\<rparr>"

definition Variable :: "'v heap \<Rightarrow> 'b QueryBuilder \<Rightarrow> string \<Rightarrow> 'v \<Rightarrow> 'v heap \<times> 'b QueryBuilder" where
  "Variable h b key val =
     (let (h1, vs) = setMapValue h (variables b) key val
      in (h1, \<lparr>queries = queries b, variables = vs\<rparr>))"

definition Variables :: "'v heap \<Rightarrow> 'b QueryBuilder \<Rightarrow> addr option \<Rightarrow> 'v heap \<times> 'b QueryBuilder" where
  "Variables h b vars =
     (let (h1, vs) = mergeMap h (variables b) vars
      in (h1, \<lparr>queries = queries b, variables = vs\<rparr>))"

text \<open>
  The inner loop of \<^verbatim>\<open>Remove\<close>: for each required name of a kept fragment that is a
  key of the builder's map, copy the entry into \<^verbatim>\<open>newVars\<close>.
\<close>

fun copyRequired :: "'v gomap \<Rightarrow> string list \<Rightarrow> 'v gomap \<Rightarrow> 'v gomap" where
  "copyRequired vars [] newVars = newVars"
| "copyRequired vars (k # ks) newVars =
     copyRequired vars ks
       (case fmlookup vars k of Some v \<Rightarrow> fmupd k v newVars | None \<Rightarrow> newVars)"

text \<open>
  The outer loop of \<^verbatim>\<open>Remove\<close>, with \<^verbatim>\<open>newQueries\<close> and the content of the fresh
  map \<^verbatim>\<open>newVars\<close> as accumulators.
\<close>

fun removeLoop ::
  "'v gomap \<Rightarrow> string \<Rightarrow> string list \<Rightarrow> 'b queryBuilderItem list \<Rightarrow>
   'b queryBuilderItem list \<Rightarrow> 'v gomap \<Rightarrow> 'b queryBuilderItem list \<times> 'v gomap" where
  "removeLoop vars qtext extra [] newQueries newVars = (newQueries, newVars)"
| "removeLoop vars qtext extra (q # qs) newQueries newVars =
     (if query q = qtext \<or> sliceStringContains extra (query q)
      then removeLoop vars qtext extra qs newQueries newVars
      else removeLoop vars qtext extra qs (newQueries @ [q])
             (if len vars > 0 then copyRequired vars (requiredVars q) newVars else newVars))"

definition Remove ::
  "'v heap \<Rightarrow> 'b QueryBuilder \<Rightarrow> string \<Rightarrow> string list \<Rightarrow> 'v heap \<times> 'b QueryBuilder" where
  "Remove h b qtext extra =
     (let (newQueries, newVars) =
            removeLoop (deref h (variables b)) qtext extra (queries b) [] fmempty
      in (h @ [newVars], \<lparr>queries = newQueries, variables = Some (length h)\<rparr>))"

fun removeQueryLoop ::
  "string \<Rightarrow> string list \<Rightarrow> 'b queryBuilderItem list \<Rightarrow> 'b queryBuilderItem list \<Rightarrow>
   'b queryBuilderItem list" where
  "removeQueryLoop qtext extra [] newQueries = newQueries"
| "removeQueryLoop qtext extra (q # qs) newQueries =
     (if query q \<noteq> qtext \<and> \<not> sliceStringContains extra (query q)
      then removeQueryLoop qtext extra qs (newQueries @ [q])
      else removeQueryLoop qtext extra qs newQueries)"

definition RemoveQuery :: "'b QueryBuilder \<Rightarrow> string \<Rightarrow> string list \<Rightarrow> 'b QueryBuilder" where
  "RemoveQuery b qtext extra =
     \<lparr>queries = removeQueryLoop qtext extra (queries b) [], variables = variables b\<rparr>"

definition RemoveVariable ::
  "'v heap \<Rightarrow> 'b QueryBuilder \<Rightarrow> string \<Rightarrow> string list \<Rightarrow> 'v heap \<times> 'b QueryBuilder" where
  "RemoveVariable h b key extra =
     (h @ [fmfilter (\<lambda>k. k \<noteq> key \<and> \<not> sliceStringContains extra k) (deref h (variables b))],
      \<lparr>queries = queries b, variables = Some (length h)\<rparr>)"

text \<open>The loops of \<^verbatim>\<open>Build\<close>.\<close>

fun collectRequired :: "'b queryBuilderItem list \<Rightarrow> string list \<Rightarrow> string list" where
  "collectRequired [] acc = acc"
| "collectRequired (q # qs) acc = collectRequired qs (acc @ requiredVars q)"

fun anyMissing :: "'v gomap \<Rightarrow> string list \<Rightarrow> bool" where
  "anyMissing vars [] = False"
| "anyMissing vars (varName # rest) =
     (case fmlookup vars varName of None \<Rightarrow> True | Some _ \<Rightarrow> anyMissing vars rest)"

fun bindings :: "'b queryBuilderItem list \<Rightarrow> (string \<times> 'b) list \<Rightarrow> (string \<times> 'b) list" where
  "bindings [] acc = acc"
| "bindings (q # qs) acc = bindings qs (acc @ [(query q, binding q)])"

text \<open>
  \<^verbatim>\<open>Build\<close> returns \<^verbatim>\<open>(nil, nil, err)\<close> on failure, which is \<open>Inl err\<close>, and
  \<^verbatim>\<open>(query, b.variables, nil)\<close> on success. The error of the second kind is built
  from the required names and from the keys of the map, collected by a \<^verbatim>\<open>range\<close>
  loop in no fixed order: a finite set.
\<close>

definition Build :: "'v heap \<Rightarrow> 'b QueryBuilder \<Rightarrow> error + ((string \<times> 'b) list \<times> addr option)" where
  "Build h b =
     (if length (queries b) = 0 then Inl errBuildQueryRequired
      else
        let required = collectRequired (queries b) [];
            variableLength = len (deref h (variables b));
            requiredVariableLength = length required;
            isMismatchedVariables = (variableLength \<noteq> requiredVariableLength);
            isMismatchedVariables =
              (if \<not> isMismatchedVariables \<and> requiredVariableLength > 0
               then anyMissing (deref h (variables b)) required
               else isMismatchedVariables)
        in if isMismatchedVariables
           then Inl (MismatchedVariables required (fmdom (deref h (variables b))))
           else Inr (bindings (queries b) [], variables b))"

subsection \<open>What the properties speak of\<close>

text \<open>
  The required-variable occurrences of a builder: the required names of its fragments,
  fragment after fragment, every occurrence counted.
\<close>

definition requiredOf :: "'b QueryBuilder \<Rightarrow> string list" where
  "requiredOf b = concat (map requiredVars (queries b))"

text \<open>No name is required by two different fragments of the list.\<close>

fun disjointNeeds :: "'b queryBuilderItem list \<Rightarrow> bool" where
  "disjointNeeds [] = True"
| "disjointNeeds (q # qs) =
     ((\<forall>q' \<in> set qs. set (requiredVars q) \<inter> set (requiredVars q') = {}) \<and> disjointNeeds qs)"

text \<open>
  The fragments that \<^verbatim>\<open>Remove\<close> and \<^verbatim>\<open>RemoveQuery\<close> keep when called with a
  text and further texts, those they drop, and the names that the fragments of a list
  require.
\<close>

definition kept :: "string \<Rightarrow> string list \<Rightarrow> 'b queryBuilderItem list \<Rightarrow> 'b queryBuilderItem list" where
  "kept qtext extra qs = filter (\<lambda>q. query q \<noteq> qtext \<and> query q \<notin> set extra) qs"

definition dropped :: "string \<Rightarrow> string list \<Rightarrow> 'b queryBuilderItem list \<Rightarrow> 'b queryBuilderItem list" where
  "dropped qtext extra qs = filter (\<lambda>q. query q = qtext \<or> query q \<in> set extra) qs"

definition requiredBy :: "'b queryBuilderItem list \<Rightarrow> string set" where
  "requiredBy qs = (\<Union>q \<in> set qs. set (requiredVars q))"

text \<open>
  The variable mapping after \<^verbatim>\<open>Remove\<close> in the words of the specification: the
  original mapping without the names that a removed fragment requires and no remaining
  fragment requires.
\<close>

definition specRemoveVariables ::
  "string \<Rightarrow> string list \<Rightarrow> 'b queryBuilderItem list \<Rightarrow> 'v gomap \<Rightarrow> 'v gomap" where
  "specRemoveVariables qtext extra qs vars =
     fmfilter (\<lambda>k. \<not> (k \<in> requiredBy (dropped qtext extra qs) \<and>
                        k \<notin> requiredBy (kept qtext extra qs))) vars"

text \<open>
  The variable names of a text in the words of the specification: a token starts
  wherever a dollar sign is followed by a letter or an underscore, its name runs on
  over letters, digits and underscores, and the names are listed by the position of
  their token, every occurrence kept.
\<close>

definition isLetter :: "char \<Rightarrow> bool" where
  "isLetter c = (c \<in> set ''abcdefghijklmnopqrstuvwxyzABCDEFGHIJKLMNOPQRSTUVWXYZ'')"

definition isDigit :: "char \<Rightarrow> bool" where
  "isDigit c = (c \<in> set ''0123456789'')"

fun tailsOf :: "string \<Rightarrow> string list" where
  "tailsOf [] = []"
| "tailsOf (c # cs) = (c # cs) # tailsOf cs"

definition tokenAt :: "string \<Rightarrow> bool" where
  "tokenAt s = (case s of d # c # _ \<Rightarrow> d = CHR ''$'' \<and> (isLetter c \<or> c = CHR ''_'') | _ \<Rightarrow> False)"

definition nameAt :: "string \<Rightarrow> string" where
  "nameAt s = takeWhile (\<lambda>c. isLetter c \<or> isDigit c \<or> c = CHR ''_'') (tl s)"

definition specVariableNames :: "string \<Rightarrow> string list" where
  "specVariableNames s = map nameAt (filter tokenAt (tailsOf s))"

text \<open>The map of the builder, if it has one, lives in the store.\<close>

definition allocated :: "'v heap \<Rightarrow> 'b QueryBuilder \<Rightarrow> bool" where
  "allocated h b = (case variables b of None \<Rightarrow> True | Some a \<Rightarrow> a < length h)"

section \<open>The loops in closed form\<close>

lemma sliceStringContains_iff: "sliceStringContains xs v \<longleftrightarrow> v \<in> set xs"
  by (induction xs) auto

lemma collectRequired_eq:
  "collectRequired qs acc = acc @ concat (map requiredVars qs)"
  by (induction qs arbitrary: acc) simp_all

lemma anyMissing_iff:
  "anyMissing vars req \<longleftrightarrow> (\<exists>n \<in> set req. n |\<notin>| fmdom vars)"
  by (induction req) (auto split: option.splits simp: fmlookup_dom_iff)

lemma bindings_eq:
  "bindings qs acc = acc @ map (\<lambda>q. (query q, binding q)) qs"
  by (induction qs arbitrary: acc) simp_all

lemma removeQueryLoop_eq:
  "removeQueryLoop qtext extra qs acc =
     acc @ filter (\<lambda>q. query q \<noteq> qtext \<and> query q \<notin> set extra) qs"
  by (induction qs arbitrary: acc) (simp_all add: sliceStringContains_iff)

lemma len_zero: "len m = 0 \<longleftrightarrow> m = fmempty"
  by (metis fmrestrict_fset_dom fmrestrict_fset_null fcard_0_eq len_def fmdom_empty)

lemma copyRequired_eq:
  "copyRequired vars ks newVars = newVars ++\<^sub>f fmfilter (\<lambda>k. k \<in> set ks) vars"
proof (induction ks arbitrary: newVars)
  case Nil
  show ?case by simp
next
  case (Cons k ks)
  show ?case
    unfolding copyRequired.simps Cons.IH
    by (rule fmap_ext) (auto split: option.splits simp: fmlookup_dom_iff)
qed

lemma removeLoop_eq:
  "removeLoop vars qtext extra qs newQueries newVars =
     (newQueries @ kept qtext extra qs,
      newVars ++\<^sub>f fmfilter (\<lambda>k. k \<in> requiredBy (kept qtext extra qs)) vars)"
proof (induction qs arbitrary: newQueries newVars)
  case Nil
  show ?case by (simp add: kept_def requiredBy_def)
next
  case (Cons q qs)
  show ?case
  proof (cases "query q = qtext \<or> query q \<in> set extra")
    case True
    then show ?thesis
      by (simp add: Cons.IH sliceStringContains_iff kept_def)
  next
    case False
    have "newVars ++\<^sub>f fmfilter (\<lambda>k. k \<in> set (requiredVars q)) vars
             ++\<^sub>f fmfilter (\<lambda>k. k \<in> requiredBy (kept qtext extra qs)) vars
          = newVars ++\<^sub>f fmfilter (\<lambda>k. k \<in> requiredBy (q # kept qtext extra qs)) vars"
      by (rule fmap_ext) (auto simp: requiredBy_def fmlookup_dom_iff)
    moreover have "len vars = 0 \<Longrightarrow>
        newVars ++\<^sub>f fmfilter (\<lambda>k. k \<in> requiredBy (kept qtext extra qs)) vars
          = newVars ++\<^sub>f fmfilter (\<lambda>k. k \<in> requiredBy (q # kept qtext extra qs)) vars"
      by (auto simp: len_zero)
    ultimately show ?thesis
      using False
      by (simp add: Cons.IH sliceStringContains_iff kept_def copyRequired_eq)
  qed
qed

lemma Remove_eq:
  "Remove h b qtext extra =
     (h @ [fmfilter (\<lambda>k. k \<in> requiredBy (kept qtext extra (queries b))) (variablesOf h b)],
      \<lparr>queries = kept qtext extra (queries b), variables = Some (length h)\<rparr>)"
  unfolding Remove_def removeLoop_eq variablesOf_def by simp

lemma variablesOf_new: "variablesOf (h @ [m]) \<lparr>queries = qs, variables = Some (length h)\<rparr> = m"
  by (simp add: variablesOf_def deref_def)

lemma deref_new: "deref (h @ [m]) (Some (length h)) = m"
  by (simp add: deref_def)

lemma requiredBy_eq: "requiredBy (queries b) = set (requiredOf b)"
  by (auto simp: requiredBy_def requiredOf_def)

lemma kept_all: "dropped qtext extra qs = [] \<Longrightarrow> kept qtext extra qs = qs"
  by (induction qs) (auto simp: kept_def dropped_def split: if_splits)

lemma Build_eq:
  assumes "queries b \<noteq> []"
  shows "Build h b =
     (if len (variablesOf h b) \<noteq> length (requiredOf b) \<or>
         (\<exists>n \<in> set (requiredOf b). n |\<notin>| fmdom (variablesOf h b))
      then Inl (MismatchedVariables (requiredOf b) (fmdom (variablesOf h b)))
      else Inr (fragmentsOf b, variables b))"
  using assms
  by (auto simp: Build_def Let_def requiredOf_def variablesOf_def fragmentsOf_def
                 collectRequired_eq anyMissing_iff bindings_eq)

section \<open>The scanner against the specification\<close>

lemma in_range_iff:
  assumes "hi < 256"
  shows "(lo \<le> (of_char c :: nat) \<and> (of_char c :: nat) \<le> hi) \<longleftrightarrow>
         c \<in> set (map char_of [lo..<Suc hi])"
proof
  assume a: "lo \<le> (of_char c :: nat) \<and> (of_char c :: nat) \<le> hi"
  have "c = char_of (of_char c :: nat)" by simp
  moreover from a have "(of_char c :: nat) \<in> set [lo..<Suc hi]" unfolding set_upt by simp
  ultimately show "c \<in> set (map char_of [lo..<Suc hi])"
    unfolding set_map by (rule image_eqI)
next
  assume "c \<in> set (map char_of [lo..<Suc hi])"
  then obtain n where c: "c = char_of n" and n: "lo \<le> n" "n \<le> hi"
    by auto
  from n assms have "n mod 256 = n" by simp
  then have "(of_char c :: nat) = n" by (simp add: c)
  with n show "lo \<le> (of_char c :: nat) \<and> (of_char c :: nat) \<le> hi" by simp
qed

lemma upper_chars: "map char_of [65..<Suc 90] = ''ABCDEFGHIJKLMNOPQRSTUVWXYZ''"
  by code_simp

lemma lower_chars: "map char_of [97..<Suc 122] = ''abcdefghijklmnopqrstuvwxyz''"
  by code_simp

lemma digit_chars: "map char_of [48..<Suc 57] = ''0123456789''"
  by code_simp

lemma char_95: "char_of (95 :: nat) = CHR ''_''"
  by code_simp

lemma underscore_char: "(of_char c :: nat) = 95 \<longleftrightarrow> c = CHR ''_''"
proof
  assume "(of_char c :: nat) = 95"
  then have "char_of (of_char c :: nat) = char_of (95 :: nat)" by (rule arg_cong)
  then show "c = CHR ''_''" unfolding char_95 by simp
qed simp

lemma isNameStart_iff: "isNameStart c \<longleftrightarrow> isLetter c \<or> c = CHR ''_''"
proof -
  have u: "(65 \<le> (of_char c :: nat) \<and> (of_char c :: nat) \<le> 90) \<longleftrightarrow> c \<in> set ''ABCDEFGHIJKLMNOPQRSTUVWXYZ''"
    using in_range_iff [of 90 65 c] unfolding upper_chars by simp
  have l: "(97 \<le> (of_char c :: nat) \<and> (of_char c :: nat) \<le> 122) \<longleftrightarrow> c \<in> set ''abcdefghijklmnopqrstuvwxyz''"
    using in_range_iff [of 122 97 c] unfolding lower_chars by simp
  have "isLetter c \<longleftrightarrow> c \<in> set ''abcdefghijklmnopqrstuvwxyz'' \<or> c \<in> set ''ABCDEFGHIJKLMNOPQRSTUVWXYZ''"
    unfolding isLetter_def by auto
  then show ?thesis
    unfolding isNameStart_def Let_def u l underscore_char by blast
qed

lemma isNameChar_iff: "isNameChar c \<longleftrightarrow> isLetter c \<or> isDigit c \<or> c = CHR ''_''"
proof -
  have u: "(65 \<le> (of_char c :: nat) \<and> (of_char c :: nat) \<le> 90) \<longleftrightarrow> c \<in> set ''ABCDEFGHIJKLMNOPQRSTUVWXYZ''"
    using in_range_iff [of 90 65 c] unfolding upper_chars by simp
  have l: "(97 \<le> (of_char c :: nat) \<and> (of_char c :: nat) \<le> 122) \<longleftrightarrow> c \<in> set ''abcdefghijklmnopqrstuvwxyz''"
    using in_range_iff [of 122 97 c] unfolding lower_chars by simp
  have d: "(48 \<le> (of_char c :: nat) \<and> (of_char c :: nat) \<le> 57) \<longleftrightarrow> c \<in> set ''0123456789''"
    using in_range_iff [of 57 48 c] unfolding digit_chars by simp
  have "isLetter c \<longleftrightarrow> c \<in> set ''abcdefghijklmnopqrstuvwxyz'' \<or> c \<in> set ''ABCDEFGHIJKLMNOPQRSTUVWXYZ''"
    unfolding isLetter_def by auto
  then show ?thesis
    unfolding isNameChar_def Let_def u l d underscore_char isDigit_def by blast
qed

lemma isNameChar_not_dollar: "isNameChar c \<Longrightarrow> c \<noteq> CHR ''$''"
  by (auto simp: isNameChar_def)

lemma isNameStart_isNameChar: "isNameStart c \<Longrightarrow> isNameChar c"
  by (auto simp: isNameChar_def isNameStart_def Let_def)

lemma tokenAt_match: "tokenAt s \<longleftrightarrow> matchVariableName s \<noteq> None"
  by (cases s rule: matchVariableName.cases) (simp_all add: tokenAt_def isNameStart_iff)

lemma nameAt_match:
  "matchVariableName s = Some (name, rest) \<Longrightarrow>
     nameAt s = name \<and> rest = dropWhile isNameChar (tl (tl s))"
proof (cases s rule: matchVariableName.cases)
  case (1 d c r)
  assume m: "matchVariableName s = Some (name, rest)"
  have e: "(\<lambda>c. isLetter c \<or> isDigit c \<or> c = CHR ''_'') = isNameChar"
    by (rule ext) (simp add: isNameChar_iff)
  from m 1 show ?thesis
    by (auto simp: nameAt_def e isNameStart_isNameChar split: if_splits)
qed simp_all

lemma tokens_skip_name:
  "filter tokenAt (tailsOf xs) = filter tokenAt (tailsOf (dropWhile isNameChar xs))"
proof (induction xs)
  case Nil
  show ?case by simp
next
  case (Cons x xs)
  show ?case
  proof (cases "isNameChar x")
    case True
    then have "\<not> tokenAt (x # xs)"
      using isNameChar_not_dollar [of x] by (auto simp: tokenAt_def split: list.splits)
    with True Cons.IH show ?thesis by simp
  next
    case False
    then show ?thesis by simp
  qed
qed

lemma collectNames_eq: "collectNames ms acc = acc @ map (\<lambda>names. names ! 1) ms"
  by (induction ms arbitrary: acc) simp_all

lemma submatches_spec:
  "map (\<lambda>names. names ! 1) (FindAllStringSubmatch s) = specVariableNames s"
proof (induction s rule: FindAllStringSubmatch.induct)
  case 1
  show ?case by (simp add: specVariableNames_def)
next
  case (2 c cs)
  show ?case
  proof (cases "matchVariableName (c # cs)")
    case None
    have ih: "map (\<lambda>names. names ! 1) (FindAllStringSubmatch cs) = specVariableNames cs"
      using None by (rule 2(1))
    have f: "FindAllStringSubmatch (c # cs) = FindAllStringSubmatch cs"
      using None by simp
    have "\<not> tokenAt (c # cs)" using None by (simp add: tokenAt_match)
    then have "specVariableNames (c # cs) = specVariableNames cs"
      by (simp add: specVariableNames_def)
    with ih f show ?thesis by (simp only:)
  next
    case (Some p)
    obtain name rest where p: "p = (name, rest)" by (cases p)
    with Some have m: "matchVariableName (c # cs) = Some (name, rest)" by simp
    have ih: "map (\<lambda>names. names ! 1) (FindAllStringSubmatch rest) = specVariableNames rest"
      using Some p [symmetric] by (rule 2(2))
    have f: "FindAllStringSubmatch (c # cs) = [CHR ''$'' # name, name] # FindAllStringSubmatch rest"
      using m by simp
    from m have t: "tokenAt (c # cs)" by (simp add: tokenAt_match)
    from nameAt_match [OF m] have n: "nameAt (c # cs) = name"
      and r: "rest = dropWhile isNameChar (tl cs)" by simp_all
    from m obtain c' r' where cs: "cs = c' # r'" and st: "isNameStart c'"
      by (cases cs) (auto split: if_splits)
    have "filter tokenAt (tailsOf cs) = filter tokenAt (tailsOf rest)"
      using tokens_skip_name [of cs] isNameStart_isNameChar [OF st]
      by (simp add: cs r)
    with t n have "specVariableNames (c # cs) = name # specVariableNames rest"
      by (simp add: specVariableNames_def)
    moreover have "map (\<lambda>names. names ! 1) (FindAllStringSubmatch (c # cs))
        = name # map (\<lambda>names. names ! 1) (FindAllStringSubmatch rest)"
      unfolding f by simp
    ultimately show ?thesis using ih by (simp only:)
  qed
qed

section \<open>Which methods write to a map that another builder holds\<close>

text \<open>
  \<^verbatim>\<open>Query\<close> and \<^verbatim>\<open>RemoveQuery\<close> do not touch the store. \<^verbatim>\<open>Variables\<close>,
  \<^verbatim>\<open>Remove\<close> and \<^verbatim>\<open>RemoveVariable\<close> write to a fresh map only, and so does
  \<^verbatim>\<open>Variable\<close> on a builder whose map is nil. \<^verbatim>\<open>Variable\<close> on a builder that has a
  map writes into that map: every builder that holds it gets the entry.
\<close>

lemma variablesOf_append:
  "allocated h b \<Longrightarrow> variablesOf (h @ [m]) b = variablesOf h b"
  by (auto simp: allocated_def variablesOf_def deref_def nth_append split: option.splits)

lemma Variables_frame:
  "allocated h b0 \<Longrightarrow> variablesOf (fst (Variables h b vars)) b0 = variablesOf h b0"
  by (simp add: Variables_def mergeMap_def variablesOf_append)

lemma Remove_frame:
  "allocated h b0 \<Longrightarrow> variablesOf (fst (Remove h b qtext extra)) b0 = variablesOf h b0"
  by (simp add: Remove_eq variablesOf_append)

lemma RemoveVariable_frame:
  "allocated h b0 \<Longrightarrow> variablesOf (fst (RemoveVariable h b key extra)) b0 = variablesOf h b0"
  by (simp add: RemoveVariable_def variablesOf_append)

lemma Variable_nil_frame:
  "variables b = None \<Longrightarrow> allocated h b0 \<Longrightarrow>
   variablesOf (fst (Variable h b key val)) b0 = variablesOf h b0"
  by (auto simp: Variable_def setMapValue_def make_def allocated_def variablesOf_def deref_def
        nth_append split: option.splits)

lemma Variable_shared:
  "variables b = Some a \<Longrightarrow> a < length h \<Longrightarrow> variables b0 = Some a \<Longrightarrow>
   variablesOf (fst (Variable h b key val)) b0 = fmupd key val (variablesOf h b0)"
  by (simp add: Variable_def setMapValue_def variablesOf_def deref_def)

lemma Variable_other:
  "variables b = Some a \<Longrightarrow> variables b0 \<noteq> Some a \<Longrightarrow>
   variablesOf (fst (Variable h b key val)) b0 = variablesOf h b0"
  by (auto simp: Variable_def setMapValue_def variablesOf_def deref_def split: option.splits)

section \<open>Counting keys\<close>

lemma len_fmempty: "len fmempty = 0"
  by (simp add: len_def)

lemma len_fmupd: "len (fmupd k v m) = (if k |\<in>| fmdom m then len m else Suc (len m))"
  by (simp add: len_def fcard_finsert_if)

lemma fcard_fset_of_list_eq: "fcard (fset_of_list xs) = card (set xs)"
  by (simp add: fcard.rep_eq fset_of_list.rep_eq)

lemma len_keys_distinct:
  "fmdom m = fset_of_list xs \<Longrightarrow> distinct xs \<Longrightarrow> len m = length xs"
  by (simp add: len_def fcard_fset_of_list_eq distinct_card)

lemma len_keys_repeated:
  "fmdom m = fset_of_list xs \<Longrightarrow> \<not> distinct xs \<Longrightarrow> len m < length xs"
  using card_distinct [of xs] card_length [of xs]
  by (auto simp: len_def fcard_fset_of_list_eq order_less_le)

lemma distinct_required:
  "disjointNeeds qs \<Longrightarrow> (\<forall>q \<in> set qs. distinct (requiredVars q)) \<Longrightarrow>
   distinct (concat (map requiredVars qs))"
  by (induction qs) auto

section \<open>Some query texts, scanned\<close>

lemma names_x_a: "findAllVariableNames ''x($a)'' = [''a'']"
  by (simp add: findAllVariableNames_def isNameStart_def isNameChar_def)

lemma names_f_x_x: "findAllVariableNames ''f(a: $x, b: $x)'' = [''x'', ''x'']"
  by (simp add: findAllVariableNames_def isNameStart_def isNameChar_def)

lemma names_user: "findAllVariableNames ''user(id: $id)'' = [''id'']"
  by (simp add: findAllVariableNames_def isNameStart_def isNameChar_def)

lemma names_person: "findAllVariableNames ''person'' = []"
  by (simp add: findAllVariableNames_def isNameStart_def isNameChar_def)

lemma names_point: "findAllVariableNames ''point(id: $id, where: $where)'' = [''id'', ''where'']"
  by (simp add: findAllVariableNames_def isNameStart_def isNameChar_def)

section \<open>Properties of Build\<close>

text \<open>
  C1. For a builder with at least one fragment, \<^verbatim>\<open>Build\<close> fails with the
  mismatched-variables error if and only if the number of declared variables differs
  from the number of required-variable occurrences of all fragments (duplicates
  counted), or there are required occurrences and some required name is not a key of
  the variable mapping. The error carries the list of required names and the keys
  declared.
\<close>

theorem Build_mismatch_iff:
  assumes "queries b \<noteq> []"
  shows "((\<exists>req keys. Build h b = Inl (MismatchedVariables req keys)) \<longleftrightarrow>
            (len (variablesOf h b) \<noteq> length (requiredOf b) \<or>
             (requiredOf b \<noteq> [] \<and>
              (\<exists>n \<in> set (requiredOf b). n |\<notin>| fmdom (variablesOf h b))))) \<and>
         (\<forall>req keys. Build h b = Inl (MismatchedVariables req keys) \<longrightarrow>
            req = requiredOf b \<and> keys = fmdom (variablesOf h b))"
  unfolding Build_eq [OF assms] by auto

text \<open>
  The fragment \<^verbatim>\<open>x($a)\<close> with the variables \<^verbatim>\<open>a\<close> and \<^verbatim>\<open>b\<close>: one required
  occurrence, two keys.
\<close>

theorem Build_mismatch_iff_witness:
  "Build [fmupd ''a'' (1::nat) (fmupd ''b'' 2 fmempty)]
     (Query \<lparr>queries = [], variables = Some 0\<rparr> ''x($a)'' ())
   = Inl (MismatchedVariables [''a''] {|''a'', ''b''|})"
proof -
  let ?h = "[fmupd ''a'' (1::nat) (fmupd ''b'' 2 fmempty)]"
  let ?b = "Query \<lparr>queries = [], variables = Some 0\<rparr> ''x($a)'' ()"
  have ne: "queries ?b \<noteq> []" by (simp add: Query_def)
  have req: "requiredOf ?b = [''a'']" by (simp add: requiredOf_def Query_def names_x_a)
  have vs: "variablesOf ?h ?b = fmupd ''a'' 1 (fmupd ''b'' 2 fmempty)"
    by (simp add: variablesOf_def deref_def Query_def)
  have "len (variablesOf ?h ?b) \<noteq> length (requiredOf ?b)"
    unfolding req vs by (simp add: len_fmupd len_fmempty)
  with Build_mismatch_iff [OF ne, of ?h]
  obtain r k where "Build ?h ?b = Inl (MismatchedVariables r k)"
    and "r = requiredOf ?b" and "k = fmdom (variablesOf ?h ?b)"
    by blast
  then show ?thesis unfolding req vs by (simp add: finsert_commute)
qed

text \<open>
  C2, as the code has it. When the number of declared variables equals the number of
  required occurrences (and there is a fragment), \<^verbatim>\<open>Build\<close> fails with the
  mismatched-variables error exactly when some required name is not a key of the
  variable mapping. A key that no fragment requires is not looked for: with \<^verbatim>\<open>x\<close>
  required twice and the keys \<^verbatim>\<open>x\<close> and \<^verbatim>\<open>y\<close>, every required name is a key, and
  \<^verbatim>\<open>Build\<close> succeeds.
\<close>

theorem Build_equal_counts:
  assumes "queries b \<noteq> []"
    and "len (variablesOf h b) = length (requiredOf b)"
  shows "Build h b =
     (if \<exists>n \<in> set (requiredOf b). n |\<notin>| fmdom (variablesOf h b)
      then Inl (MismatchedVariables (requiredOf b) (fmdom (variablesOf h b)))
      else Inr (fragmentsOf b, variables b))"
  unfolding Build_eq [OF assms(1)] using assms(2) by simp

text \<open>
  Two fragments requiring \<^verbatim>\<open>x\<close> and \<^verbatim>\<open>y\<close>, the keys \<^verbatim>\<open>x\<close> and \<^verbatim>\<open>z\<close>: equal
  counts, and \<^verbatim>\<open>y\<close> is missing.
\<close>

theorem Build_equal_counts_witness:
  "Build [fmupd ''x'' (1::nat) (fmupd ''z'' 2 fmempty)]
     \<lparr>queries = [\<lparr>query = ''p(a: $x)'', binding = (), requiredVars = [''x'']\<rparr>,
                 \<lparr>query = ''q(b: $y)'', binding = (), requiredVars = [''y'']\<rparr>],
      variables = Some 0\<rparr>
   = Inl (MismatchedVariables [''x'', ''y''] {|''x'', ''z''|})"
  using Build_equal_counts
    [of "\<lparr>queries = [\<lparr>query = ''p(a: $x)'', binding = (), requiredVars = [''x'']\<rparr>,
                      \<lparr>query = ''q(b: $y)'', binding = (), requiredVars = [''y'']\<rparr>],
           variables = Some 0\<rparr>"
        "[fmupd ''x'' (1::nat) (fmupd ''z'' 2 fmempty)]"]
  by (simp add: requiredOf_def variablesOf_def deref_def len_fmupd len_fmempty finsert_commute)

text \<open>
  The claim as written fails: the fragment \<^verbatim>\<open>f(a: $x, b: $x)\<close> requires \<^verbatim>\<open>x\<close>
  twice, the mapping has the keys \<^verbatim>\<open>x\<close> and \<^verbatim>\<open>y\<close>, and \<^verbatim>\<open>Build\<close> returns the
  fragment and the mapping.
\<close>

theorem Build_swap_undetected:
  "requiredOf (Query \<lparr>queries = [], variables = Some 0\<rparr> ''f(a: $x, b: $x)'' ())
     = [''x'', ''x''] \<and>
   fmdom (variablesOf [fmupd ''x'' (1::nat) (fmupd ''y'' 2 fmempty)]
            (Query \<lparr>queries = [], variables = Some 0\<rparr> ''f(a: $x, b: $x)'' ()))
     = {|''x'', ''y''|} \<and>
   Build [fmupd ''x'' (1::nat) (fmupd ''y'' 2 fmempty)]
     (Query \<lparr>queries = [], variables = Some 0\<rparr> ''f(a: $x, b: $x)'' ())
     = Inr ([(''f(a: $x, b: $x)'', ())], Some 0)"
  by (simp add: Build_def Query_def names_f_x_x requiredOf_def variablesOf_def deref_def
                len_fmupd len_fmempty finsert_commute)

text \<open>
  C5. A builder with no fragment: \<^verbatim>\<open>Build\<close> returns the no-query error, and with it
  neither a query list nor a variable map, whatever the store and the builder's
  variable mapping hold.
\<close>

theorem Build_no_fragments:
  "queries b = [] \<Longrightarrow> Build h b = Inl errBuildQueryRequired"
  by (simp add: Build_def)

theorem Build_no_fragments_witness:
  "Build [fmupd ''id'' (1::nat) fmempty]
     \<lparr>queries = ([] :: unit queryBuilderItem list), variables = Some 0\<rparr>
   = Inl errBuildQueryRequired"
  using Build_no_fragments
          [of "\<lparr>queries = ([] :: unit queryBuilderItem list), variables = Some 0\<rparr>"
              "[fmupd ''id'' (1::nat) fmempty]"]
  by simp

text \<open>
  C8, as the code has it. For a builder with at least one fragment, in which no name
  is required by two different fragments and no fragment requires a name twice, and
  whose variable mapping has exactly the required names as keys, \<^verbatim>\<open>Build\<close> succeeds:
  it returns the (text, binding) pairs in insertion order and the builder's variable
  mapping.
\<close>

theorem Build_roundtrip:
  assumes "queries b \<noteq> []"
    and "disjointNeeds (queries b)"
    and "\<forall>q \<in> set (queries b). distinct (requiredVars q)"
    and "fmdom (variablesOf h b) = fset_of_list (requiredOf b)"
  shows "Build h b = Inr (map (\<lambda>q. (query q, binding q)) (queries b), variables b) \<and>
         fmdom (deref h (variables b)) = fset_of_list (requiredOf b)"
proof -
  have d: "distinct (requiredOf b)"
    unfolding requiredOf_def using assms(2,3) by (rule distinct_required)
  have "len (variablesOf h b) = length (requiredOf b)"
    using assms(4) d by (rule len_keys_distinct)
  moreover have "\<not> (\<exists>n \<in> set (requiredOf b). n |\<notin>| fmdom (variablesOf h b))"
    by (simp add: assms(4) fset_of_list_elem)
  ultimately show ?thesis
    using assms(1,4) by (simp add: Build_eq fragmentsOf_def variablesOf_def)
qed

text \<open>
  The fragments \<^verbatim>\<open>user(id: $id)\<close> and \<^verbatim>\<open>person\<close> with the variable \<^verbatim>\<open>id\<close>.
\<close>

theorem Build_roundtrip_witness:
  "Build [fmupd ''id'' ''1'' fmempty]
     (Query (Query \<lparr>queries = [], variables = Some 0\<rparr> ''user(id: $id)'' ''U'') ''person'' ''P'')
   = Inr ([(''user(id: $id)'', ''U''), (''person'', ''P'')], Some 0)"
  using Build_roundtrip
    [of "Query (Query \<lparr>queries = [], variables = Some 0\<rparr> ''user(id: $id)'' ''U'') ''person'' ''P''"
        "[fmupd ''id'' ''1'' fmempty]"]
  by (simp add: Query_def names_user names_person requiredOf_def variablesOf_def deref_def)

text \<open>
  The claim as written fails twice. A single fragment that requires \<^verbatim>\<open>x\<close> twice has
  needs disjoint from those of every other fragment, and the mapping with the one key
  \<^verbatim>\<open>x\<close> has one entry per required name; \<^verbatim>\<open>Build\<close> fails on the counts. And the
  builder with no fragment and no variable meets the condition and gets the no-query
  error.
\<close>

theorem Build_roundtrip_counterexample:
  "(disjointNeeds (queries (Query \<lparr>queries = [], variables = Some 0\<rparr> ''f(a: $x, b: $x)'' ())) \<and>
    fmdom (variablesOf [fmupd ''x'' (1::nat) fmempty]
             (Query \<lparr>queries = [], variables = Some 0\<rparr> ''f(a: $x, b: $x)'' ()))
      = fset_of_list (requiredOf (Query \<lparr>queries = [], variables = Some 0\<rparr> ''f(a: $x, b: $x)'' ())) \<and>
    Build [fmupd ''x'' (1::nat) fmempty]
      (Query \<lparr>queries = [], variables = Some 0\<rparr> ''f(a: $x, b: $x)'' ())
      = Inl (MismatchedVariables [''x'', ''x''] {|''x''|})) \<and>
   (disjointNeeds (queries \<lparr>queries = ([] :: unit queryBuilderItem list), variables = Some 0\<rparr>) \<and>
    fmdom (variablesOf [fmempty :: (string, nat) fmap]
             \<lparr>queries = ([] :: unit queryBuilderItem list), variables = Some 0\<rparr>)
      = fset_of_list (requiredOf \<lparr>queries = ([] :: unit queryBuilderItem list), variables = Some 0\<rparr>) \<and>
    Build [fmempty :: (string, nat) fmap]
      \<lparr>queries = ([] :: unit queryBuilderItem list), variables = Some 0\<rparr>
      = Inl errBuildQueryRequired)"
  by (simp add: Build_def Query_def names_f_x_x requiredOf_def variablesOf_def deref_def
                len_fmupd len_fmempty)

text \<open>
  C10. When some required name occurs more than once among the required occurrences of
  the fragments (within one fragment or across fragments) and the variable mapping
  has exactly one entry for each distinct required name, \<^verbatim>\<open>Build\<close> fails with the
  mismatched-variables error: the number of entries is smaller than the number of
  occurrences.
\<close>

theorem Build_repeated_name:
  assumes "\<not> distinct (requiredOf b)"
    and "fmdom (variablesOf h b) = fset_of_list (requiredOf b)"
  shows "len (variablesOf h b) < length (requiredOf b) \<and>
         Build h b = Inl (MismatchedVariables (requiredOf b) (fmdom (variablesOf h b)))"
proof -
  from assms(1) have "queries b \<noteq> []"
    by (auto simp: requiredOf_def)
  moreover have "len (variablesOf h b) < length (requiredOf b)"
    using assms(2) assms(1) by (rule len_keys_repeated)
  ultimately show ?thesis
    by (simp add: Build_eq)
qed

text \<open>
  The fragments \<^verbatim>\<open>user(id: $id)\<close> and \<^verbatim>\<open>point(id: $id, where: $where)\<close> with the
  variables \<^verbatim>\<open>id\<close> and \<^verbatim>\<open>where\<close>: three occurrences, two entries.
\<close>

theorem Build_repeated_name_witness:
  "Build [fmupd ''id'' (1::nat) (fmupd ''where'' 2 fmempty)]
     (Query (Query \<lparr>queries = [], variables = Some 0\<rparr> ''user(id: $id)'' ())
        ''point(id: $id, where: $where)'' ())
   = Inl (MismatchedVariables [''id'', ''id'', ''where''] {|''id'', ''where''|})"
  using Build_repeated_name
    [of "Query (Query \<lparr>queries = [], variables = Some 0\<rparr> ''user(id: $id)'' ())
           ''point(id: $id, where: $where)'' ()"
        "[fmupd ''id'' (1::nat) (fmupd ''where'' 2 fmempty)]"]
  by (simp add: Query_def names_user names_point requiredOf_def variablesOf_def deref_def
                finsert_commute)

section \<open>Properties of the removals\<close>

text \<open>
  C3, as the code has it. \<^verbatim>\<open>Remove\<close> returns a builder whose fragment list is the
  original list without the fragments whose text is one of the argument texts, the
  others in their order, and whose variable mapping is the original mapping restricted
  to the names that some remaining fragment requires. An entry whose name no remaining
  fragment requires is dropped, whether or not a removed fragment required it.
\<close>

theorem Remove_result:
  assumes "Remove h b qtext extra = (h', b')"
  shows "queries b' = kept qtext extra (queries b) \<and>
         variablesOf h' b' = fmfilter (\<lambda>k. k \<in> requiredBy (queries b')) (variablesOf h b)"
  using assms unfolding Remove_eq by (auto simp: variablesOf_new)

text \<open>
  Removing \<^verbatim>\<open>user(id: $id)\<close> from the fragments \<^verbatim>\<open>user(id: $id)\<close> and
  \<^verbatim>\<open>point(id: $id, where: $where)\<close>: both variables stay.
\<close>

theorem Remove_result_witness:
  "queries (snd (Remove [fmupd ''id'' (1::nat) (fmupd ''where'' 2 fmempty)]
      (Query (Query \<lparr>queries = [], variables = Some 0\<rparr> ''user(id: $id)'' ())
         ''point(id: $id, where: $where)'' ())
      ''user(id: $id)'' []))
     = [\<lparr>query = ''point(id: $id, where: $where)'', binding = (),
         requiredVars = [''id'', ''where'']\<rparr>] \<and>
   variablesOf
     (fst (Remove [fmupd ''id'' (1::nat) (fmupd ''where'' 2 fmempty)]
      (Query (Query \<lparr>queries = [], variables = Some 0\<rparr> ''user(id: $id)'' ())
         ''point(id: $id, where: $where)'' ())
      ''user(id: $id)'' []))
     (snd (Remove [fmupd ''id'' (1::nat) (fmupd ''where'' 2 fmempty)]
      (Query (Query \<lparr>queries = [], variables = Some 0\<rparr> ''user(id: $id)'' ())
         ''point(id: $id, where: $where)'' ())
      ''user(id: $id)'' []))
     = fmupd ''id'' 1 (fmupd ''where'' 2 fmempty)"
proof -
  let ?h = "[fmupd ''id'' (1::nat) (fmupd ''where'' 2 fmempty)]"
  let ?b = "Query (Query \<lparr>queries = [], variables = Some 0\<rparr> ''user(id: $id)'' ())
              ''point(id: $id, where: $where)'' ()"
  let ?R = "Remove ?h ?b ''user(id: $id)'' []"
  have vs: "variablesOf ?h ?b = fmupd ''id'' 1 (fmupd ''where'' 2 fmempty)"
    by (simp add: variablesOf_def deref_def Query_def)
  have qs: "kept ''user(id: $id)'' [] (queries ?b)
      = [\<lparr>query = ''point(id: $id, where: $where)'', binding = (),
          requiredVars = [''id'', ''where'']\<rparr>]"
    by (simp add: kept_def Query_def names_user names_point)
  have "Remove ?h ?b ''user(id: $id)'' [] = (fst ?R, snd ?R)" by simp
  from Remove_result [OF this]
  have "queries (snd ?R) = kept ''user(id: $id)'' [] (queries ?b)"
    and "variablesOf (fst ?R) (snd ?R)
           = fmfilter (\<lambda>k. k \<in> requiredBy (queries (snd ?R))) (variablesOf ?h ?b)"
    by simp_all
  then show ?thesis
    unfolding vs qs by (simp add: requiredBy_def)
qed

text \<open>
  The claim as written fails: with the fragments \<^verbatim>\<open>user(id: $id)\<close> and
  \<^verbatim>\<open>person\<close> and the variables \<^verbatim>\<open>id\<close> and \<^verbatim>\<open>extra\<close>, removing \<^verbatim>\<open>person\<close>
  drops \<^verbatim>\<open>extra\<close>, which the removed fragment does not require.
\<close>

theorem Remove_drops_unreferenced:
  "fmlookup
     (variablesOf
        (fst (Remove [fmupd ''id'' (1::nat) (fmupd ''extra'' 2 fmempty)]
                (Query (Query \<lparr>queries = [], variables = Some 0\<rparr> ''user(id: $id)'' ()) ''person'' ())
                ''person'' []))
        (snd (Remove [fmupd ''id'' (1::nat) (fmupd ''extra'' 2 fmempty)]
                (Query (Query \<lparr>queries = [], variables = Some 0\<rparr> ''user(id: $id)'' ()) ''person'' ())
                ''person'' [])))
     ''extra'' = None \<and>
   fmlookup
     (specRemoveVariables ''person'' []
        (queries (Query (Query \<lparr>queries = [], variables = Some 0\<rparr> ''user(id: $id)'' ()) ''person'' ()))
        (variablesOf [fmupd ''id'' (1::nat) (fmupd ''extra'' 2 fmempty)]
           (Query (Query \<lparr>queries = [], variables = Some 0\<rparr> ''user(id: $id)'' ()) ''person'' ())))
     ''extra'' = Some 2"
  by (simp add: Remove_eq variablesOf_new specRemoveVariables_def Query_def names_user names_person
        kept_def dropped_def requiredBy_def variablesOf_def deref_def)

text \<open>
  C4, as the code has it. \<^verbatim>\<open>RemoveQuery\<close> with texts that no fragment has returns
  the builder as it was. \<^verbatim>\<open>RemoveVariable\<close> with names that are not keys returns a
  builder with the same fragments and a mapping equal to the original. \<^verbatim>\<open>Remove\<close>
  with texts that no fragment has keeps the fragment list, and keeps of the variable
  mapping the entries whose names some fragment requires: the mapping is unchanged when
  every key is required by some fragment. None of the three produces an error: they
  return a builder on every input.
\<close>

theorem removal_of_absent:
  "(dropped qtext extra (queries b) = [] \<longrightarrow> RemoveQuery b qtext extra = b) \<and>
   (key |\<notin>| fmdom (variablesOf h b) \<and> fset_of_list names |\<inter>| fmdom (variablesOf h b) = {||} \<longrightarrow>
      queries (snd (RemoveVariable h b key names)) = queries b \<and>
      variablesOf (fst (RemoveVariable h b key names)) (snd (RemoveVariable h b key names))
        = variablesOf h b) \<and>
   (dropped qtext extra (queries b) = [] \<longrightarrow>
      queries (snd (Remove h b qtext extra)) = queries b \<and>
      variablesOf (fst (Remove h b qtext extra)) (snd (Remove h b qtext extra))
        = fmfilter (\<lambda>k. k \<in> set (requiredOf b)) (variablesOf h b)) \<and>
   (dropped qtext extra (queries b) = [] \<and> fmdom (variablesOf h b) |\<subseteq>| fset_of_list (requiredOf b) \<longrightarrow>
      variablesOf (fst (Remove h b qtext extra)) (snd (Remove h b qtext extra)) = variablesOf h b)"
proof (intro conjI impI)
  assume "dropped qtext extra (queries b) = []"
  then show "RemoveQuery b qtext extra = b"
    by (simp add: RemoveQuery_def removeQueryLoop_eq kept_all [unfolded kept_def])
next
  assume a: "key |\<notin>| fmdom (variablesOf h b) \<and> fset_of_list names |\<inter>| fmdom (variablesOf h b) = {||}"
  show "queries (snd (RemoveVariable h b key names)) = queries b"
    by (simp add: RemoveVariable_def)
  have "fmfilter (\<lambda>k. k \<noteq> key \<and> \<not> sliceStringContains names k) (variablesOf h b) = variablesOf h b"
  proof (rule fmfilter_true)
    fix x y assume "fmlookup (variablesOf h b) x = Some y"
    then have "x |\<in>| fmdom (variablesOf h b)" by (simp add: fmdomI)
    with a show "x \<noteq> key \<and> \<not> sliceStringContains names x"
      by (auto simp: sliceStringContains_iff fset_of_list_elem)
  qed
  then show "variablesOf (fst (RemoveVariable h b key names)) (snd (RemoveVariable h b key names))
        = variablesOf h b"
    unfolding variablesOf_def by (simp add: RemoveVariable_def deref_new)
next
  assume d: "dropped qtext extra (queries b) = []"
  show "queries (snd (Remove h b qtext extra)) = queries b"
    by (simp add: Remove_eq kept_all [OF d])
  show "variablesOf (fst (Remove h b qtext extra)) (snd (Remove h b qtext extra))
        = fmfilter (\<lambda>k. k \<in> set (requiredOf b)) (variablesOf h b)"
    by (simp add: Remove_eq kept_all [OF d] variablesOf_new requiredBy_eq)
next
  assume a: "dropped qtext extra (queries b) = [] \<and> fmdom (variablesOf h b) |\<subseteq>| fset_of_list (requiredOf b)"
  then have d: "dropped qtext extra (queries b) = []" by simp
  have "fmfilter (\<lambda>k. k \<in> set (requiredOf b)) (variablesOf h b) = variablesOf h b"
  proof (rule fmfilter_true)
    fix x y assume "fmlookup (variablesOf h b) x = Some y"
    then have "x |\<in>| fmdom (variablesOf h b)" by (simp add: fmdomI)
    with a show "x \<in> set (requiredOf b)"
      by (auto simp: fset_of_list_elem)
  qed
  then show "variablesOf (fst (Remove h b qtext extra)) (snd (Remove h b qtext extra)) = variablesOf h b"
    by (simp add: Remove_eq kept_all [OF d] variablesOf_new requiredBy_eq)
qed

theorem removal_of_absent_witness:
  "RemoveQuery (Query \<lparr>queries = [], variables = Some 0\<rparr> ''user(id: $id)'' ()) ''nope'' [''nada'']
     = Query \<lparr>queries = [], variables = Some 0\<rparr> ''user(id: $id)'' () \<and>
   variablesOf
     (fst (RemoveVariable [fmupd ''id'' (1::nat) fmempty]
             (Query \<lparr>queries = [], variables = Some 0\<rparr> ''user(id: $id)'' ()) ''zz'' [''yy'']))
     (snd (RemoveVariable [fmupd ''id'' (1::nat) fmempty]
             (Query \<lparr>queries = [], variables = Some 0\<rparr> ''user(id: $id)'' ()) ''zz'' [''yy'']))
     = fmupd ''id'' 1 fmempty \<and>
   variablesOf
     (fst (Remove [fmupd ''id'' (1::nat) fmempty]
             (Query \<lparr>queries = [], variables = Some 0\<rparr> ''user(id: $id)'' ()) ''nope'' [''nada'']))
     (snd (Remove [fmupd ''id'' (1::nat) fmempty]
             (Query \<lparr>queries = [], variables = Some 0\<rparr> ''user(id: $id)'' ()) ''nope'' [''nada'']))
     = fmupd ''id'' 1 fmempty"
proof -
  let ?h = "[fmupd ''id'' (1::nat) fmempty]"
  let ?b = "Query \<lparr>queries = [], variables = Some 0\<rparr> ''user(id: $id)'' ()"
  have vs: "variablesOf ?h ?b = fmupd ''id'' 1 fmempty"
    by (simp add: variablesOf_def deref_def Query_def)
  have d: "dropped ''nope'' [''nada''] (queries ?b) = []"
    by (simp add: dropped_def Query_def)
  have k: "''zz'' |\<notin>| fmdom (variablesOf ?h ?b) \<and>
           fset_of_list [''yy''] |\<inter>| fmdom (variablesOf ?h ?b) = {||}"
    unfolding vs by simp
  have r: "fmdom (variablesOf ?h ?b) |\<subseteq>| fset_of_list (requiredOf ?b)"
    unfolding vs by (simp add: requiredOf_def Query_def names_user)
  from removal_of_absent [of "''nope''" "[''nada'']" ?b "''zz''" ?h "[''yy'']"] d k r
  show ?thesis unfolding vs by blast
qed

text \<open>
  The claim as written fails for \<^verbatim>\<open>Remove\<close>: with the fragment \<^verbatim>\<open>person\<close> and the
  variable \<^verbatim>\<open>id\<close>, removing the absent text \<^verbatim>\<open>nope\<close> empties the variable
  mapping.
\<close>

theorem Remove_absent_counterexample:
  "dropped ''nope'' [] (queries (Query \<lparr>queries = [], variables = Some 0\<rparr> ''person'' ())) = [] \<and>
   variablesOf [fmupd ''id'' (1::nat) fmempty] (Query \<lparr>queries = [], variables = Some 0\<rparr> ''person'' ())
     = fmupd ''id'' 1 fmempty \<and>
   variablesOf
     (fst (Remove [fmupd ''id'' (1::nat) fmempty]
             (Query \<lparr>queries = [], variables = Some 0\<rparr> ''person'' ()) ''nope'' []))
     (snd (Remove [fmupd ''id'' (1::nat) fmempty]
             (Query \<lparr>queries = [], variables = Some 0\<rparr> ''person'' ()) ''nope'' []))
     = fmempty"
  by (simp add: Remove_eq variablesOf_new Query_def names_person
        kept_def dropped_def requiredBy_def variablesOf_def deref_def)

text \<open>
  C7. \<^verbatim>\<open>RemoveQuery\<close> returns a builder with the same reference to the variable
  mapping, so with the same mapping, entry for entry, in every store; its fragment
  list is the original one without the fragments whose text is one of the argument
  texts.
\<close>

theorem RemoveQuery_keeps_variables:
  "variables (RemoveQuery b qtext extra) = variables b \<and>
   variablesOf h (RemoveQuery b qtext extra) = variablesOf h b \<and>
   queries (RemoveQuery b qtext extra) = kept qtext extra (queries b)"
  by (simp add: RemoveQuery_def removeQueryLoop_eq variablesOf_def kept_def)

text \<open>
  The variable \<^verbatim>\<open>id\<close> stays when the only fragment that requires it is removed, and
  \<^verbatim>\<open>Build\<close> then fails: one key, no required name.
\<close>

theorem RemoveQuery_keeps_variables_witness:
  "variablesOf [fmupd ''id'' (1::nat) fmempty]
     (RemoveQuery (Query (Query \<lparr>queries = [], variables = Some 0\<rparr> ''user(id: $id)'' ()) ''person'' ())
        ''user(id: $id)'' [])
     = fmupd ''id'' 1 fmempty \<and>
   Build [fmupd ''id'' (1::nat) fmempty]
     (RemoveQuery (Query (Query \<lparr>queries = [], variables = Some 0\<rparr> ''user(id: $id)'' ()) ''person'' ())
        ''user(id: $id)'' [])
     = Inl (MismatchedVariables [] {|''id''|})"
proof -
  let ?h = "[fmupd ''id'' (1::nat) fmempty]"
  let ?b = "Query (Query \<lparr>queries = [], variables = Some 0\<rparr> ''user(id: $id)'' ()) ''person'' ()"
  let ?b' = "RemoveQuery ?b ''user(id: $id)'' []"
  have vs: "variablesOf ?h ?b = fmupd ''id'' 1 fmempty"
    by (simp add: variablesOf_def deref_def Query_def)
  have qs: "kept ''user(id: $id)'' [] (queries ?b)
      = [\<lparr>query = ''person'', binding = (), requiredVars = []\<rparr>]"
    by (simp add: kept_def Query_def names_user names_person)
  from RemoveQuery_keeps_variables [of ?b "''user(id: $id)''" "[]" ?h]
  have v': "variablesOf ?h ?b' = fmupd ''id'' 1 fmempty"
    and q': "queries ?b' = [\<lparr>query = ''person'', binding = (), requiredVars = []\<rparr>]"
    unfolding vs qs by simp_all
  have "Build ?h ?b' = Inl (MismatchedVariables [] {|''id''|})"
    using v' q' by (simp add: Build_eq requiredOf_def len_fmupd len_fmempty)
  with v' show ?thesis by simp
qed

section \<open>Properties of the variable scan\<close>

text \<open>
  C6. The required-variable list that \<^verbatim>\<open>Query\<close> stores with a fragment is the
  list computed by \<^verbatim>\<open>findAllVariableNames\<close> from the fragment text, and that list is
  the sequence of the names of all tokens \<^verbatim>\<open>$name\<close> of the text, where a name
  starts with a letter or an underscore and continues with letters, digits or
  underscores, in the order of their appearance, repeated occurrences kept.
\<close>

theorem findAllVariableNames_spec:
  "requiredVars (last (queries (Query b qtext bnd))) = findAllVariableNames qtext \<and>
   findAllVariableNames qtext = specVariableNames qtext"
proof -
  have "findAllVariableNames qtext = map (\<lambda>names. names ! 1) (FindAllStringSubmatch qtext)"
    unfolding findAllVariableNames_def collectNames_eq by simp
  then have "findAllVariableNames qtext = specVariableNames qtext"
    unfolding submatches_spec .
  then show ?thesis by (simp add: Query_def)
qed

text \<open>
  A text with two dollar signs in a row, a name that a hyphen ends, a dollar sign
  before a digit, a name of one underscore, a repeated name and a dollar sign at the
  end.
\<close>

theorem findAllVariableNames_spec_witness:
  "requiredVars (last (queries
     (Query \<lparr>queries = [], variables = None\<rparr> ''$$a1_b-$9 $_ $a1_b $'' ())))
     = [''a1_b'', ''_'', ''a1_b''] \<and>
   specVariableNames ''$$a1_b-$9 $_ $a1_b $'' = [''a1_b'', ''_'', ''a1_b'']"
proof -
  have e: "findAllVariableNames ''$$a1_b-$9 $_ $a1_b $'' = [''a1_b'', ''_'', ''a1_b'']"
    by (simp add: findAllVariableNames_def isNameStart_def isNameChar_def)
  from findAllVariableNames_spec
         [of "\<lparr>queries = [], variables = None\<rparr>" "''$$a1_b-$9 $_ $a1_b $''" "()"]
  show ?thesis unfolding e by (elim conjE) (simp only:)
qed

section \<open>Snapshots\<close>

text \<open>
  C9 says that every mutating method leaves the receiver and the builders derived
  from the same ancestor as they were. \<^verbatim>\<open>Variable\<close> does not: \<^verbatim>\<open>setMapValue\<close>
  stores into the receiver's own map, where \<^verbatim>\<open>Variables\<close> copies into a fresh one.
  From a new builder with the fragment \<^verbatim>\<open>person\<close>, which builds, the call
  \<^verbatim>\<open>Variable("id", 1)\<close> puts \<^verbatim>\<open>id\<close> into the receiver's mapping, and the receiver
  no longer builds; a second call on the same receiver puts \<^verbatim>\<open>other\<close> into the
  mapping of the builder that the first call returned.
\<close>

theorem Variable_writes_shared_map:
  "(case NewQueryBuilder ([] :: nat heap) of
      (h0, b0) \<Rightarrow>
        (let a = Query b0 ''person'' ();
             (h1, s1) = Variable h0 a ''id'' 1;
             (h2, s2) = Variable h1 a ''other'' 2
         in variablesOf h0 a = fmempty \<and>
            Build h0 a = Inr ([(''person'', ())], Some 0) \<and>
            variablesOf h1 a = fmupd ''id'' 1 fmempty \<and>
            Build h1 a = Inl (MismatchedVariables [] {|''id''|}) \<and>
            variablesOf h1 s1 = fmupd ''id'' 1 fmempty \<and>
            variablesOf h2 s1 = fmupd ''other'' 2 (fmupd ''id'' 1 fmempty)))"
  by (simp add: NewQueryBuilder_def make_def Query_def names_person Variable_def setMapValue_def
        variablesOf_def deref_def Build_def len_fmupd len_fmempty)

end
